theory Spec2Isabelle
  imports Main "HOL-Library.Sublist"
begin

section \<open>JavaScript values\<close>

text \<open>
  The reducers of this repository are JavaScript functions over dynamically typed values.
  The values they read are modelled as follows.
  \<^item> \<open>jsprim\<close>: the primitive values. Numbers are the integer-valued ones (\<open>PNum\<close>);
    \<open>NaN\<close>, fractions and infinities are not ids of the data model and are left out.
    Strings are lists of characters.
  \<^item> \<open>obj\<close>: the own enumerable properties of a plain object, a finite map from property
    names to primitive values. A property that is absent reads as \<open>undefined\<close>.
  \<^item> \<open>jsval\<close>: a value held by a property of an action: a primitive, or a reference
    \<open>JObj r ps\<close> to an object with identity \<open>r\<close> and properties \<open>ps\<close>.
\<close>

datatype jsprim = PUndefined | PNull | PBool bool | PNum int | PStr string

type_synonym obj = "string \<rightharpoonup> jsprim"

type_synonym ref = nat

datatype jsval = JPrim jsprim | JObj ref obj

text \<open>Property read \<open>o.k\<close> on an object: an absent property is \<open>undefined\<close>.\<close>

definition get :: "obj \<Rightarrow> string \<Rightarrow> jsprim" where
  "get ob k = (case ob k of None \<Rightarrow> PUndefined | Some v \<Rightarrow> v)"

text \<open>
  Strict equality \<open>===\<close> (and the comparison of a \<open>switch\<close>): primitives are compared
  by value, objects by reference, and a primitive never equals an object.
\<close>

fun strict_eq :: "jsval \<Rightarrow> jsval \<Rightarrow> bool" where
  "strict_eq (JPrim a) (JPrim b) = (a = b)"
| "strict_eq (JObj r ps) (JObj r' ps') = (r = r')"
| "strict_eq (JPrim a) (JObj r' ps') = False"
| "strict_eq (JObj r ps) (JPrim b) = False"

text \<open>
  An action is an object; the reducers read its properties \<open>type\<close>, \<open>id\<close>, \<open>todo\<close> and
  \<open>payload\<close>. \<open>field a k\<close> is the read \<open>action.k\<close>.
\<close>

type_synonym action = "string \<rightharpoonup> jsval"

definition field :: "action \<Rightarrow> string \<Rightarrow> jsval" where
  "field a k = (case a k of None \<Rightarrow> JPrim PUndefined | Some v \<Rightarrow> v)"

subsection \<open>\<open>Object.assign\<close>\<close>

text \<open>
  \<open>Object.assign(target, ...sources)\<close> copies the own enumerable properties of each
  source onto the target, later sources overwriting earlier ones. A source that is
  \<open>undefined\<close> or \<open>null\<close> is skipped, a boolean or a number has no own properties, and a
  string contributes its characters under the decimal indices \<open>0\<close>, \<open>1\<close>, ...
\<close>

fun decimal :: "nat \<Rightarrow> string" where
  "decimal n =
     (if n < 10 then [''0123456789'' ! n]
      else decimal (n div 10) @ [''0123456789'' ! (n mod 10)])"

declare decimal.simps [simp del]

fun own_props :: "jsval \<Rightarrow> obj" where
  "own_props (JObj r ps) = ps"
| "own_props (JPrim (PStr s)) =
     map_of (zip (map decimal [0..<length s]) (map (\<lambda>c. PStr [c]) s))"
| "own_props (JPrim p) = Map.empty"

definition assign :: "obj \<Rightarrow> obj \<Rightarrow> obj" where
  "assign target source = target ++ source"

section \<open>The reducer with the module-level counter\<close>

text \<open>
  \<^verbatim>\<open>
  let id = 0;

  export default function manageTodo(state = { todos: [] }, action) {
    switch (action.type) {
      case 'ADD_TODO':
        id++;
        const todo = Object.assign({}, action.todo, { id: id });
        return { todos: state.todos.concat(todo) };
      case 'DELETE_TODO':
        const todos = state.todos.filter(todo => todo.id !== action.id);
        return  { todos }
      default:
        return state;
    }
  };
  \<close>
  The state is an object with the one property \<open>todos\<close>, an array of todo objects. No
  operation of this reducer compares two todo objects, so a todo is modelled by its
  properties alone. The module-level variable \<open>id\<close> is threaded through explicitly: the
  reducer takes its current value and returns the new one next to the state. None of
  the operations involved throws on these values, so the result is a plain pair.
\<close>

record state =
  todos :: "obj list"

text \<open>
  \<open>id++\<close> on the counter. The variable is private to the module, starts at \<open>0\<close> and is
  only ever incremented, so its values are integers from \<open>0\<close> on. They are JavaScript
  numbers, that is doubles: below \<open>2^53\<close> the increment is exact, and at \<open>2^53\<close> the sum
  \<open>2^53 + 1\<close> is no double and rounds back to \<open>2^53\<close>, so the counter stays there. The
  counter never takes another value (\<open>reachable_counter\<close> below).
\<close>

definition js_incr :: "int \<Rightarrow> int" where
  "js_incr n = (if n < 2 ^ 53 then n + 1 else n)"

text \<open>The default value of the parameter \<open>state\<close>, used when the argument is \<open>undefined\<close>.\<close>

definition default_state :: state where
  "default_state = \<lparr>todos = []\<rparr>"

definition manageTodo :: "int \<Rightarrow> state option \<Rightarrow> action \<Rightarrow> int \<times> state" where
  "manageTodo idc st action =
     (let state = (case st of None \<Rightarrow> default_state | Some s \<Rightarrow> s) in
      if strict_eq (field action ''type'') (JPrim (PStr ''ADD_TODO'')) then
        (let idc' = js_incr idc;
             todo = assign (assign Map.empty (own_props (field action ''todo'')))
                      [''id'' \<mapsto> PNum idc']
         in (idc', \<lparr>todos = todos state @ [todo]\<rparr>))
      else if strict_eq (field action ''type'') (JPrim (PStr ''DELETE_TODO'')) then
        (idc, \<lparr>todos = filter (\<lambda>todo. \<not> strict_eq (JPrim (get todo ''id''))
                                           (field action ''id'')) (todos state)\<rparr>)
      else (idc, state))"

text \<open>
  The action \<open>Todo.handleOnClick\<close> dispatches: \<open>{type: 'DELETE_TODO', id: this.props.id}\<close>.
\<close>

definition handleOnClick :: "jsval \<Rightarrow> action" where
  "handleOnClick props_id = [''type'' \<mapsto> JPrim (PStr ''DELETE_TODO''), ''id'' \<mapsto> props_id]"

text \<open>
  Modelled from the spec: the component that dispatches an Add is not among the sources.
  An Add action carries the item text; the reducer copies the properties of the object
  \<open>action.todo\<close> into the new item, so the text is the property \<open>text\<close> of that object.
\<close>

definition add_action :: "ref \<Rightarrow> string \<Rightarrow> action" where
  "add_action r text =
     [''type'' \<mapsto> JPrim (PStr ''ADD_TODO''), ''todo'' \<mapsto> JObj r [''text'' \<mapsto> PStr text]]"

text \<open>
  The states a store can reach: it starts with the counter at \<open>0\<close> and the default
  state, and every dispatched action takes it through the reducer. The third component
  is the history of the ids handed out so far, in order: the ids of the items a step
  appended (it is not part of the program).
\<close>

definition ids :: "state \<Rightarrow> jsprim list" where
  "ids s = map (\<lambda>todo. get todo ''id'') (todos s)"

definition appended_ids :: "state \<Rightarrow> state \<Rightarrow> jsprim list" where
  "appended_ids s s' = map (\<lambda>todo. get todo ''id'') (drop (length (todos s)) (todos s'))"

inductive reachable :: "int \<Rightarrow> state \<Rightarrow> jsprim list \<Rightarrow> bool" where
  reachable_init: "reachable 0 default_state []"
| reachable_step:
    "reachable c s h \<Longrightarrow> manageTodo c (Some s) a = (c', s') \<Longrightarrow>
     reachable c' s' (h @ appended_ids s s')"

section \<open>The reducers of the walkthrough\<close>

text \<open>
  The walkthrough builds its reducer in steps. With ids from the \<open>uuid\<close> package:
  \<^verbatim>\<open>
  export default function manageTodo(state = { todos: [] }, action) {
    console.log(action);
    switch (action.type) {
      case 'ADD_TODO':
        const todo = { id: uuid(), text: action.payload.text }
        return { todos: state.todos.concat(todo) };
      case 'DELETE_TODO':
        return {todos: state.todos.filter(todo => todo !== action.payload)}
      default:
        return state;
    }
  }
  \<close>
  and, as its last step, with the \<open>DELETE_TODO\<close> case replaced by
  \<^verbatim>\<open>
      case 'DELETE_TODO':
        return {todos: state.todos.filter(todo => todo.id !== action.payload)}
  \<close>
  The first of them compares whole todo objects with the payload, so its todos carry
  their reference. What the runtime supplies during a call is passed in: \<open>u\<close> is the
  string \<open>uuid()\<close> returns and \<open>r\<close> the reference of the object the literal creates.
  \<open>console.log\<close> prints the action and has no part in the result; it is left out.
  Reading a property of \<open>undefined\<close> or \<open>null\<close> throws a \<open>TypeError\<close>; the properties
  read here are no property of a primitive, where the read gives \<open>undefined\<close>.
\<close>

datatype error = TypeError

fun read :: "jsval \<Rightarrow> string \<Rightarrow> error + jsprim" where
  "read (JObj r ps) k = Inr (get ps k)"
| "read (JPrim PUndefined) k = Inl TypeError"
| "read (JPrim PNull) k = Inl TypeError"
| "read (JPrim p) k = Inr PUndefined"

record state_uuid =
  todos_uuid :: "(ref \<times> obj) list"

definition default_state_uuid :: state_uuid where
  "default_state_uuid = \<lparr>todos_uuid = []\<rparr>"

definition manageTodo_uuid ::
  "string \<Rightarrow> ref \<Rightarrow> state_uuid option \<Rightarrow> action \<Rightarrow> error + state_uuid" where
  "manageTodo_uuid u r st action =
     (let state = (case st of None \<Rightarrow> default_state_uuid | Some s \<Rightarrow> s) in
      if strict_eq (field action ''type'') (JPrim (PStr ''ADD_TODO'')) then
        (case read (field action ''payload'') ''text'' of
           Inl e \<Rightarrow> Inl e
         | Inr t \<Rightarrow>
             (let todo = (r, [''id'' \<mapsto> PStr u, ''text'' \<mapsto> t])
              in Inr \<lparr>todos_uuid = todos_uuid state @ [todo]\<rparr>))
      else if strict_eq (field action ''type'') (JPrim (PStr ''DELETE_TODO'')) then
        Inr \<lparr>todos_uuid = filter (\<lambda>todo. \<not> strict_eq (JObj (fst todo) (snd todo))
                                               (field action ''payload''))
                               (todos_uuid state)\<rparr>
      else Inr state)"

definition manageTodo_final ::
  "string \<Rightarrow> ref \<Rightarrow> state_uuid option \<Rightarrow> action \<Rightarrow> error + state_uuid" where
  "manageTodo_final u r st action =
     (let state = (case st of None \<Rightarrow> default_state_uuid | Some s \<Rightarrow> s) in
      if strict_eq (field action ''type'') (JPrim (PStr ''ADD_TODO'')) then
        (case read (field action ''payload'') ''text'' of
           Inl e \<Rightarrow> Inl e
         | Inr t \<Rightarrow>
             (let todo = (r, [''id'' \<mapsto> PStr u, ''text'' \<mapsto> t])
              in Inr \<lparr>todos_uuid = todos_uuid state @ [todo]\<rparr>))
      else if strict_eq (field action ''type'') (JPrim (PStr ''DELETE_TODO'')) then
        Inr \<lparr>todos_uuid = filter (\<lambda>todo. \<not> strict_eq (JPrim (get (snd todo) ''id''))
                                               (field action ''payload''))
                               (todos_uuid state)\<rparr>
      else Inr state)"

text \<open>
  The Delete of the walkthrough: \<open>mapDispatchToProps\<close> of \<open>TodosContainer\<close> gives the
  components \<open>delete: x => dispatch({type: 'DELETE_TODO', payload: x})\<close>, which \<open>Todo\<close>
  calls with \<open>props.todo.id\<close>.
\<close>

definition dispatch_delete :: "jsval \<Rightarrow> action" where
  "dispatch_delete x = [''type'' \<mapsto> JPrim (PStr ''DELETE_TODO''), ''payload'' \<mapsto> x]"

text \<open>
  Modelled from the spec: the component that dispatches an Add is not among the sources.
  The reducers of the walkthrough read the text as \<open>action.payload.text\<close>.
\<close>

definition add_action_payload :: "ref \<Rightarrow> string \<Rightarrow> action" where
  "add_action_payload r text =
     [''type'' \<mapsto> JPrim (PStr ''ADD_TODO''), ''payload'' \<mapsto> JObj r [''text'' \<mapsto> PStr text]]"

text \<open>
  \<open>bounded c xs\<close>: every id of the list \<open>xs\<close> is one of the numbers \<open>1\<close>, ..., \<open>c\<close>.
\<close>

definition bounded :: "int \<Rightarrow> jsprim list \<Rightarrow> bool" where
  "bounded c xs \<longleftrightarrow> (\<forall>i\<in>set xs. \<exists>n. i = PNum n \<and> 1 \<le> n \<and> n \<le> c)"

section \<open>Reading the definitions\<close>

lemma strict_eq_prim [simp]: "strict_eq (JPrim p) v = (v = JPrim p)"
  by (cases v) auto

lemma strict_eq_prim2 [simp]: "strict_eq v (JPrim p) = (v = JPrim p)"
  by (cases v) auto

lemma field_upd [simp]: "field (a(k \<mapsto> v)) k' = (if k' = k then v else field a k')"
  by (simp add: field_def)

lemma field_empty [simp]: "field Map.empty k = JPrim PUndefined"
  by (simp add: field_def)

lemma get_upd [simp]: "get (ob(k \<mapsto> v)) k' = (if k' = k then v else get ob k')"
  by (simp add: get_def)

lemma get_empty [simp]: "get Map.empty k = PUndefined"
  by (simp add: get_def)

lemma dispatch_delete_fields [simp]:
  "field (dispatch_delete x) ''type'' = JPrim (PStr ''DELETE_TODO'')"
  "field (dispatch_delete x) ''payload'' = x"
  by (simp_all add: dispatch_delete_def)

lemma handleOnClick_fields [simp]:
  "field (handleOnClick x) ''type'' = JPrim (PStr ''DELETE_TODO'')"
  "field (handleOnClick x) ''id'' = x"
  by (simp_all add: handleOnClick_def)

lemma add_action_fields [simp]:
  "field (add_action r text) ''type'' = JPrim (PStr ''ADD_TODO'')"
  "field (add_action r text) ''todo'' = JObj r [''text'' \<mapsto> PStr text]"
  by (simp_all add: add_action_def)

lemma add_action_payload_fields [simp]:
  "field (add_action_payload r text) ''type'' = JPrim (PStr ''ADD_TODO'')"
  "field (add_action_payload r text) ''payload'' = JObj r [''text'' \<mapsto> PStr text]"
  by (simp_all add: add_action_payload_def)

subsection \<open>The three branches of the reducer\<close>

lemma manageTodo_add:
  assumes "field a ''type'' = JPrim (PStr ''ADD_TODO'')"
  shows "manageTodo c (Some s) a =
    (js_incr c, \<lparr>todos = todos s @ [(own_props (field a ''todo''))(''id'' \<mapsto> PNum (js_incr c))]\<rparr>)"
  using assms by (simp add: manageTodo_def assign_def Let_def)

lemma manageTodo_add_None:
  assumes "field a ''type'' = JPrim (PStr ''ADD_TODO'')"
  shows "manageTodo c None a =
    (js_incr c, \<lparr>todos = [(own_props (field a ''todo''))(''id'' \<mapsto> PNum (js_incr c))]\<rparr>)"
  using assms by (simp add: manageTodo_def assign_def Let_def default_state_def)

lemma manageTodo_not_add:
  assumes "field a ''type'' \<noteq> JPrim (PStr ''ADD_TODO'')"
  shows "manageTodo c st a = (c, snd (manageTodo c' st a))"
  using assms by (simp add: manageTodo_def Let_def)

lemma manageTodo_delete:
  assumes "field a ''type'' = JPrim (PStr ''DELETE_TODO'')"
  shows "manageTodo c (Some s) a =
    (c, \<lparr>todos = filter (\<lambda>todo. JPrim (get todo ''id'') \<noteq> field a ''id'') (todos s)\<rparr>)"
  using assms by (simp add: manageTodo_def eq_commute)

lemma manageTodo_final_delete:
  assumes "field a ''type'' = JPrim (PStr ''DELETE_TODO'')"
  shows "manageTodo_final u r (Some s) a =
    Inr \<lparr>todos_uuid = filter (\<lambda>todo. JPrim (get (snd todo) ''id'') \<noteq> field a ''payload'')
       (todos_uuid s)\<rparr>"
  using assms by (simp add: manageTodo_final_def eq_commute)

lemma manageTodo_uuid_delete:
  assumes "field a ''type'' = JPrim (PStr ''DELETE_TODO'')"
  shows "manageTodo_uuid u r (Some s) a =
    Inr \<lparr>todos_uuid = filter (\<lambda>todo. \<not> strict_eq (JObj (fst todo) (snd todo)) (field a ''payload''))
       (todos_uuid s)\<rparr>"
  using assms by (simp add: manageTodo_uuid_def)

lemma manageTodo_uuid_add:
  assumes "field a ''type'' = JPrim (PStr ''ADD_TODO'')"
    and "field a ''payload'' = JObj q ps"
  shows "manageTodo_uuid u r (Some w) a =
      Inr \<lparr>todos_uuid = todos_uuid w @ [(r, [''id'' \<mapsto> PStr u, ''text'' \<mapsto> get ps ''text''])]\<rparr>"
    and "manageTodo_final u r (Some w) a =
      Inr \<lparr>todos_uuid = todos_uuid w @ [(r, [''id'' \<mapsto> PStr u, ''text'' \<mapsto> get ps ''text''])]\<rparr>"
  using assms by (simp_all add: manageTodo_uuid_def manageTodo_final_def)

lemma manageTodo_other:
  assumes "field a ''type'' \<noteq> JPrim (PStr ''ADD_TODO'')"
    and "field a ''type'' \<noteq> JPrim (PStr ''DELETE_TODO'')"
  shows "manageTodo c (Some s) a = (c, s)"
  using assms by (simp add: manageTodo_def)

subsection \<open>Lists and maps\<close>

lemma count_list_filter:
  "count_list (filter P xs) x = (if P x then count_list xs x else 0)"
  by (induction xs) auto

lemma filter_noop: "(\<forall>x\<in>set xs. P x) \<Longrightarrow> filter P xs = xs"
  by (induction xs) auto

lemma upd_id_eq: "(ps(k \<mapsto> x) = ps(k \<mapsto> y)) = (x = y)"
  by (metis fun_upd_same option.inject)

subsection \<open>The counter and the reachable states\<close>

lemma js_incr_ge: "c \<le> js_incr c"
  by (simp add: js_incr_def)

text \<open>One step of the store, by the branch the action takes.\<close>

lemma step_cases:
  assumes "manageTodo c (Some s) a = (c', s')"
  obtains (add) item where "field a ''type'' = JPrim (PStr ''ADD_TODO'')" "c' = js_incr c"
      "s' = \<lparr>todos = todos s @ [item]\<rparr>" "get item ''id'' = PNum (js_incr c)"
      "appended_ids s s' = [PNum (js_incr c)]"
  | (delete) P where "field a ''type'' \<noteq> JPrim (PStr ''ADD_TODO'')" "c' = c"
      "s' = \<lparr>todos = filter P (todos s)\<rparr>" "appended_ids s s' = []"
  | (other) "field a ''type'' \<noteq> JPrim (PStr ''ADD_TODO'')" "c' = c" "s' = s" "appended_ids s s' = []"
proof (cases "field a ''type'' = JPrim (PStr ''ADD_TODO'')")
  case True
  with assms show ?thesis
    by (intro add [of "(own_props (field a ''todo''))(''id'' \<mapsto> PNum (js_incr c))"])
       (auto simp add: manageTodo_add appended_ids_def)
next
  case notadd: False
  show ?thesis
  proof (cases "field a ''type'' = JPrim (PStr ''DELETE_TODO'')")
    case True
    with assms notadd show ?thesis
      by (intro delete [of "\<lambda>todo. JPrim (get todo ''id'') \<noteq> field a ''id''"])
         (auto simp add: manageTodo_delete appended_ids_def)
  next
    case False
    with assms notadd show ?thesis
      by (intro other) (auto simp add: manageTodo_other appended_ids_def)
  qed
qed

lemma bounded_Nil [simp]: "bounded c []"
  by (simp add: bounded_def)

lemma bounded_append [simp]: "bounded c (xs @ ys) \<longleftrightarrow> bounded c xs \<and> bounded c ys"
  by (auto simp add: bounded_def)

lemma bounded_single [simp]: "bounded c [PNum n] \<longleftrightarrow> 1 \<le> n \<and> n \<le> c"
  by (simp add: bounded_def)

lemma bounded_mono: "bounded c xs \<Longrightarrow> c \<le> c' \<Longrightarrow> bounded c' xs"
  unfolding bounded_def by (meson order_trans)

lemma bounded_subset: "bounded c xs \<Longrightarrow> set ys \<subseteq> set xs \<Longrightarrow> bounded c ys"
  unfolding bounded_def by blast

lemma bounded_fresh: "bounded c xs \<Longrightarrow> c < n \<Longrightarrow> PNum n \<notin> set xs"
  unfolding bounded_def by fastforce

lemma reachable_counter:
  assumes "reachable c s h"
  shows "0 \<le> c \<and> c \<le> 2 ^ 53"
  using assms
proof (induction rule: reachable.induct)
  case reachable_init
  show ?case by simp
next
  case (reachable_step c s h a c' s')
  from reachable_step.hyps(2) have "c' = c \<or> c' = js_incr c"
    by (cases rule: step_cases) simp_all
  with reachable_step.IH show ?case
    by (auto simp add: js_incr_def)
qed

lemma reachable_bounded:
  assumes "reachable c s h"
  shows "bounded c (ids s) \<and> bounded c h"
  using assms
proof (induction rule: reachable.induct)
  case reachable_init
  show ?case by (simp add: default_state_def ids_def)
next
  case (reachable_step c s h a c' s')
  then have IH1: "bounded c (ids s)" and IH2: "bounded c h"
    by simp_all
  from reachable_step.hyps(1) have c0: "0 \<le> c"
    by (simp add: reachable_counter)
  from reachable_step.hyps(2) show ?case
  proof (cases rule: step_cases)
    case (add item)
    have le: "c \<le> js_incr c" by (rule js_incr_ge)
    have one: "1 \<le> js_incr c" using c0 by (simp add: js_incr_def)
    have "ids s' = ids s @ [PNum (js_incr c)]"
      using add by (simp add: ids_def)
    moreover have "bounded (js_incr c) (ids s)" using IH1 le by (rule bounded_mono)
    moreover have "bounded (js_incr c) h" using IH2 le by (rule bounded_mono)
    ultimately show ?thesis
      using add one by simp
  next
    case (delete P)
    have "set (ids s') \<subseteq> set (ids s)"
      using delete by (auto simp add: ids_def)
    with IH1 have "bounded c (ids s')" by (rule bounded_subset)
    with IH2 delete show ?thesis by simp
  next
    case other
    with IH1 IH2 show ?thesis by simp
  qed
qed

lemma reachable_distinct:
  assumes "reachable c s h"
  shows "c < 2 ^ 53 \<longrightarrow> distinct (ids s) \<and> distinct h"
  using assms
proof (induction rule: reachable.induct)
  case reachable_init
  show ?case by (simp add: default_state_def ids_def)
next
  case (reachable_step c s h a c' s')
  note bnd = reachable_bounded [OF reachable_step.hyps(1)]
  from reachable_step.hyps(2) show ?case
  proof (cases rule: step_cases)
    case (add item)
    show ?thesis
    proof
      assume lt: "c' < 2 ^ 53"
      with add have c: "c < 2 ^ 53" and c': "js_incr c = c + 1"
        by (auto simp add: js_incr_def split: if_splits)
      have f1: "PNum (c + 1) \<notin> set (ids s)"
        by (rule bounded_fresh [of c]) (use bnd in simp_all)
      have f2: "PNum (c + 1) \<notin> set h"
        by (rule bounded_fresh [of c]) (use bnd in simp_all)
      have "ids s' = ids s @ [PNum (c + 1)]"
        using add c' by (simp add: ids_def)
      moreover have "appended_ids s s' = [PNum (c + 1)]"
        using add c' by simp
      ultimately show "distinct (ids s') \<and> distinct (h @ appended_ids s s')"
        using reachable_step.IH c f1 f2 by simp
    qed
  next
    case (delete P)
    have "distinct (ids s) \<Longrightarrow> distinct (ids s')"
      using delete by (simp add: ids_def distinct_map_filter)
    with delete reachable_step.IH show ?thesis by simp
  next
    case other
    then show ?thesis using reachable_step.IH by simp
  qed
qed

lemma reachable_empty:
  assumes "0 \<le> n" and "n \<le> 2 ^ 53"
  shows "reachable n default_state (map PNum [1..n])"
  using assms
proof (induction n rule: int_ge_induct)
  case base
  have "[1..0::int] = []" by (rule upto_empty) simp
  then show ?case using reachable_init by simp
next
  case (step n)
  from step.prems have n: "n < 2 ^ 53" by simp
  then have "n \<le> 2 ^ 53" by simp
  then have IH: "reachable n default_state (map PNum [1..n])" by (rule step.IH)
  let ?item = "[''text'' \<mapsto> PStr [], ''id'' \<mapsto> PNum (n + 1)]"
  have add: "manageTodo n (Some default_state) (add_action 0 []) = (n + 1, \<lparr>todos = [?item]\<rparr>)"
    using n by (simp add: manageTodo_add js_incr_def default_state_def)
  have a1: "appended_ids default_state \<lparr>todos = [?item]\<rparr> = [PNum (n + 1)]"
    by (simp add: appended_ids_def default_state_def)
  have r1: "reachable (n + 1) \<lparr>todos = [?item]\<rparr> (map PNum [1..n] @ [PNum (n + 1)])"
    using reachable_step [OF IH add] unfolding a1 .
  have del: "manageTodo (n + 1) (Some \<lparr>todos = [?item]\<rparr>) (handleOnClick (JPrim (PNum (n + 1))))
      = (n + 1, default_state)"
    by (simp add: manageTodo_delete default_state_def)
  have a2: "appended_ids \<lparr>todos = [?item]\<rparr> default_state = []"
    by (simp add: appended_ids_def default_state_def)
  have r2: "reachable (n + 1) default_state ((map PNum [1..n] @ [PNum (n + 1)]) @ [])"
    using reachable_step [OF r1 del] unfolding a2 .
  have "[1..n + 1] = [1..n] @ [n + 1]"
    using step.hyps by (simp add: upto_rec2)
  then have "map PNum [1..n + 1] = (map PNum [1..n] @ [PNum (n + 1)]) @ []"
    by simp
  with r2 show ?case by (simp only:)
qed

lemma reachable_fresh:
  assumes "reachable c s h" and "c < 2 ^ 53"
  shows "PNum (js_incr c) \<notin> set (ids s) \<and> PNum (js_incr c) \<notin> set h"
proof -
  from assms(2) have "js_incr c = c + 1" by (simp add: js_incr_def)
  moreover have "PNum (c + 1) \<notin> set (ids s)"
    by (rule bounded_fresh [of c]) (use reachable_bounded [OF assms(1)] in simp_all)
  moreover have "PNum (c + 1) \<notin> set h"
    by (rule bounded_fresh [of c]) (use reachable_bounded [OF assms(1)] in simp_all)
  ultimately show ?thesis by simp
qed

lemma step_distinct:
  assumes "manageTodo c (Some s) a = (c', s')" and "distinct (ids s)"
    and "field a ''type'' = JPrim (PStr ''ADD_TODO'') \<Longrightarrow> PNum (js_incr c) \<notin> set (ids s)"
  shows "distinct (ids s')"
  using assms(1)
proof (cases rule: step_cases)
  case (add item)
  then have "ids s' = ids s @ [PNum (js_incr c)]"
    by (simp add: ids_def)
  with assms(2) assms(3) [OF add(1)] show ?thesis by simp
next
  case (delete P)
  with assms(2) show ?thesis by (simp add: ids_def distinct_map_filter)
next
  case other
  with assms(2) show ?thesis by simp
qed

lemma reachable_one:
  "reachable 1 \<lparr>todos = [[''text'' \<mapsto> PStr ''buy milk'', ''id'' \<mapsto> PNum 1]]\<rparr> [PNum 1]"
proof -
  have "manageTodo 0 (Some default_state) (add_action 0 ''buy milk'')
      = (1, \<lparr>todos = [[''text'' \<mapsto> PStr ''buy milk'', ''id'' \<mapsto> PNum 1]]\<rparr>)"
    by (simp add: manageTodo_add js_incr_def default_state_def)
  from reachable_step [OF reachable_init this] show ?thesis
    by (simp add: appended_ids_def default_state_def)
qed

subsection \<open>The example run\<close>

text \<open>
  From the empty collection: Add "buy milk", Add "walk dog", Delete 1, Delete 99.
\<close>

lemma example_run:
  "manageTodo 0 None (add_action 0 ''buy milk'')
     = (1, \<lparr>todos = [[''text'' \<mapsto> PStr ''buy milk'', ''id'' \<mapsto> PNum 1]]\<rparr>)"
  "manageTodo 1 (Some \<lparr>todos = [[''text'' \<mapsto> PStr ''buy milk'', ''id'' \<mapsto> PNum 1]]\<rparr>)
       (add_action 1 ''walk dog'')
     = (2, \<lparr>todos = [[''text'' \<mapsto> PStr ''buy milk'', ''id'' \<mapsto> PNum 1],
                      [''text'' \<mapsto> PStr ''walk dog'', ''id'' \<mapsto> PNum 2]]\<rparr>)"
  "manageTodo 2 (Some \<lparr>todos = [[''text'' \<mapsto> PStr ''buy milk'', ''id'' \<mapsto> PNum 1],
                      [''text'' \<mapsto> PStr ''walk dog'', ''id'' \<mapsto> PNum 2]]\<rparr>)
       (handleOnClick (JPrim (PNum 1)))
     = (2, \<lparr>todos = [[''text'' \<mapsto> PStr ''walk dog'', ''id'' \<mapsto> PNum 2]]\<rparr>)"
  "manageTodo 2 (Some \<lparr>todos = [[''text'' \<mapsto> PStr ''walk dog'', ''id'' \<mapsto> PNum 2]]\<rparr>)
       (handleOnClick (JPrim (PNum 99)))
     = (2, \<lparr>todos = [[''text'' \<mapsto> PStr ''walk dog'', ''id'' \<mapsto> PNum 2]]\<rparr>)"
  by (simp_all add: manageTodo_add manageTodo_add_None manageTodo_delete js_incr_def)

text \<open>\<open>Object.assign\<close> with a string as source spreads its characters.\<close>

lemma example_string_source:
  "manageTodo 0 None [''type'' \<mapsto> JPrim (PStr ''ADD_TODO''), ''todo'' \<mapsto> JPrim (PStr ''ab'')]
     = (1, \<lparr>todos = [[''0'' \<mapsto> PStr ''a'', ''1'' \<mapsto> PStr ''b'', ''id'' \<mapsto> PNum 1]]\<rparr>)"
  by (simp add: manageTodo_add_None js_incr_def decimal.simps upt_rec [of 0] upt_rec [of 1]
      upt_rec [of 2] fun_upd_twist)

section \<open>Unrecognized actions\<close>

text \<open>
  C7. An action whose \<open>type\<close> is neither \<open>'ADD_TODO'\<close> nor \<open>'DELETE_TODO'\<close> (a missing
  \<open>type\<close> and a \<open>type\<close> that is no string included) takes the \<open>default\<close> branch: the
  reducer returns the state it was given and leaves the counter alone, and with no state
  given it returns the default state. The reducers of the walkthrough return the given
  state as well, and no \<open>TypeError\<close>.
\<close>

theorem manageTodo_unrecognized:
  assumes "field a ''type'' \<noteq> JPrim (PStr ''ADD_TODO'')"
    and "field a ''type'' \<noteq> JPrim (PStr ''DELETE_TODO'')"
  shows "manageTodo c (Some s) a = (c, s) \<and> manageTodo c None a = (c, default_state)
    \<and> manageTodo_uuid u r (Some w) a = Inr w \<and> manageTodo_final u r (Some w) a = Inr w"
  using assms by (simp add: manageTodo_def manageTodo_uuid_def manageTodo_final_def)

theorem manageTodo_unrecognized_witness:
  "manageTodo 3 (Some \<lparr>todos = [[''id'' \<mapsto> PNum 1, ''text'' \<mapsto> PStr ''a'']]\<rparr>)
     [''type'' \<mapsto> JPrim (PStr ''@@INIT'')]
   = (3, \<lparr>todos = [[''id'' \<mapsto> PNum 1, ''text'' \<mapsto> PStr ''a'']]\<rparr>)
   \<and> manageTodo 3 (Some default_state) Map.empty = (3, default_state)
   \<and> manageTodo 0 None [''type'' \<mapsto> JPrim (PStr ''@@INIT'')] = (0, default_state)"
  using manageTodo_unrecognized [of "[''type'' \<mapsto> JPrim (PStr ''@@INIT'')]" 3
      "\<lparr>todos = [[''id'' \<mapsto> PNum 1, ''text'' \<mapsto> PStr ''a'']]\<rparr>"]
    manageTodo_unrecognized [of Map.empty 3 default_state]
    manageTodo_unrecognized [of "[''type'' \<mapsto> JPrim (PStr ''@@INIT'')]" 0]
  by simp

section \<open>Purity\<close>

text \<open>
  C3 (as stated). The reducer is not a function of its two arguments alone: called twice
  with the same state and the same Add action, it returns two different states, since the
  first call has moved the module-level counter from \<open>0\<close> to \<open>1\<close>.
\<close>

theorem manageTodo_repeated_call_differs:
  "manageTodo 0 (Some default_state) (add_action 0 ''a'')
     = (1, \<lparr>todos = [[''text'' \<mapsto> PStr ''a'', ''id'' \<mapsto> PNum 1]]\<rparr>)
   \<and> manageTodo 1 (Some default_state) (add_action 0 ''a'')
     = (2, \<lparr>todos = [[''text'' \<mapsto> PStr ''a'', ''id'' \<mapsto> PNum 2]]\<rparr>)
   \<and> \<lparr>todos = [[''text'' \<mapsto> PStr ''a'', ''id'' \<mapsto> PNum 1]]\<rparr>
     \<noteq> \<lparr>todos = [[''text'' \<mapsto> PStr ''a'', ''id'' \<mapsto> PNum (2::int)]]\<rparr>"
  by (simp add: manageTodo_add js_incr_def default_state_def upd_id_eq)

text \<open>
  C3 (amended). The reducer is a function of the counter, the state and the action. On
  every action that is not an Add, the returned state does not depend on the counter and
  the counter is left as it is. On an Add the counter is set to its incremented value, and
  two calls with the same state and action return the same state exactly when the
  incremented counters agree.
\<close>

theorem manageTodo_counter_dependence:
  "(field a ''type'' \<noteq> JPrim (PStr ''ADD_TODO'') \<longrightarrow>
      fst (manageTodo c st a) = c \<and> snd (manageTodo c st a) = snd (manageTodo c' st a))
   \<and> (field a ''type'' = JPrim (PStr ''ADD_TODO'') \<longrightarrow>
      fst (manageTodo c st a) = js_incr c
      \<and> (snd (manageTodo c st a) = snd (manageTodo c' st a)) = (js_incr c = js_incr c'))"
proof (intro conjI impI)
  assume na: "field a ''type'' \<noteq> JPrim (PStr ''ADD_TODO'')"
  show "fst (manageTodo c st a) = c"
    by (subst manageTodo_not_add [OF na, of c st c]) simp
  show "snd (manageTodo c st a) = snd (manageTodo c' st a)"
    by (subst manageTodo_not_add [OF na, of c st c']) simp
next
  assume ad: "field a ''type'' = JPrim (PStr ''ADD_TODO'')"
  show "fst (manageTodo c st a) = js_incr c"
    by (cases st) (simp_all add: manageTodo_add [OF ad] manageTodo_add_None [OF ad])
  show "(snd (manageTodo c st a) = snd (manageTodo c' st a)) = (js_incr c = js_incr c')"
    by (cases st) (simp_all add: manageTodo_add [OF ad] manageTodo_add_None [OF ad] upd_id_eq)
qed

theorem manageTodo_counter_dependence_witness:
  "fst (manageTodo 7 (Some default_state) (handleOnClick (JPrim (PNum 1)))) = 7
   \<and> snd (manageTodo 7 (Some default_state) (handleOnClick (JPrim (PNum 1))))
     = snd (manageTodo 0 (Some default_state) (handleOnClick (JPrim (PNum 1))))
   \<and> fst (manageTodo 7 (Some default_state) (add_action 0 ''a'')) = 8
   \<and> snd (manageTodo 7 (Some default_state) (add_action 0 ''a''))
     \<noteq> snd (manageTodo 0 (Some default_state) (add_action 0 ''a''))"
  using manageTodo_counter_dependence [of "handleOnClick (JPrim (PNum 1))" 7 "Some default_state" 0]
    manageTodo_counter_dependence [of "add_action 0 ''a''" 7 "Some default_state" 0]
  by (simp add: js_incr_def)

section \<open>Add followed by Delete\<close>

text \<open>
  C4 (as stated). Uniqueness of the ids of the collection is not enough for the round
  trip. With the counter at \<open>0\<close> and a collection that holds one item with id \<open>1\<close>, the Add
  gives its item the id \<open>1\<close> as well, and deleting that id removes both items.
\<close>

theorem add_then_delete_loses_item:
  "distinct (ids \<lparr>todos = [[''id'' \<mapsto> PNum 1, ''text'' \<mapsto> PStr ''a'']]\<rparr>)
   \<and> manageTodo 0 (Some \<lparr>todos = [[''id'' \<mapsto> PNum 1, ''text'' \<mapsto> PStr ''a'']]\<rparr>)
       (add_action 0 ''b'')
     = (1, \<lparr>todos = [[''id'' \<mapsto> PNum 1, ''text'' \<mapsto> PStr ''a''],
                      [''text'' \<mapsto> PStr ''b'', ''id'' \<mapsto> PNum 1]]\<rparr>)
   \<and> manageTodo 1 (Some \<lparr>todos = [[''id'' \<mapsto> PNum 1, ''text'' \<mapsto> PStr ''a''],
                      [''text'' \<mapsto> PStr ''b'', ''id'' \<mapsto> PNum 1]]\<rparr>)
       (handleOnClick (JPrim (PNum 1)))
     = (1, \<lparr>todos = []\<rparr>)
   \<and> \<lparr>todos = []\<rparr> \<noteq> \<lparr>todos = [[''id'' \<mapsto> PNum 1, ''text'' \<mapsto> PStr ''a'']]\<rparr>"
  by (simp add: manageTodo_add manageTodo_delete js_incr_def ids_def)

text \<open>
  C4 (amended). For every state whose collection holds no item with the id the Add is
  about to hand out (the incremented counter), an Add followed by the Delete of the id
  of the item it appended gives back the state before the Add: the same items in the
  same order.
\<close>

theorem add_then_delete_restores:
  assumes "field a ''type'' = JPrim (PStr ''ADD_TODO'')"
    and "PNum (js_incr c) \<notin> set (ids s)"
    and "manageTodo c (Some s) a = (c1, s1)"
  shows "manageTodo c1 (Some s1) (handleOnClick (JPrim (get (last (todos s1)) ''id''))) = (c1, s)"
proof -
  let ?item = "(own_props (field a ''todo''))(''id'' \<mapsto> PNum (js_incr c))"
  from assms(1,3) have s1: "s1 = \<lparr>todos = todos s @ [?item]\<rparr>" and c1: "c1 = js_incr c"
    by (auto simp add: manageTodo_add)
  then have i: "get (last (todos s1)) ''id'' = PNum (js_incr c)"
    by simp
  have keep: "filter (\<lambda>todo. get todo ''id'' \<noteq> PNum (js_incr c)) (todos s) = todos s"
  proof (rule filter_noop, rule ballI)
    fix t assume "t \<in> set (todos s)"
    then have "get t ''id'' \<in> set (ids s)" by (simp add: ids_def)
    with assms(2) show "get t ''id'' \<noteq> PNum (js_incr c)" by (intro notI) simp
  qed
  show ?thesis
    unfolding i by (simp add: manageTodo_delete s1 keep)
qed

theorem add_then_delete_restores_witness:
  "PNum (js_incr 2) \<notin> set (ids \<lparr>todos = [[''text'' \<mapsto> PStr ''buy milk'', ''id'' \<mapsto> PNum 1],
                                            [''text'' \<mapsto> PStr ''walk dog'', ''id'' \<mapsto> PNum 2]]\<rparr>)
   \<and> manageTodo 2 (Some \<lparr>todos = [[''text'' \<mapsto> PStr ''buy milk'', ''id'' \<mapsto> PNum 1],
                                  [''text'' \<mapsto> PStr ''walk dog'', ''id'' \<mapsto> PNum 2]]\<rparr>)
       (add_action 0 ''feed cat'')
     = (3, \<lparr>todos = [[''text'' \<mapsto> PStr ''buy milk'', ''id'' \<mapsto> PNum 1],
                      [''text'' \<mapsto> PStr ''walk dog'', ''id'' \<mapsto> PNum 2],
                      [''text'' \<mapsto> PStr ''feed cat'', ''id'' \<mapsto> PNum 3]]\<rparr>)
   \<and> manageTodo 3 (Some \<lparr>todos = [[''text'' \<mapsto> PStr ''buy milk'', ''id'' \<mapsto> PNum 1],
                      [''text'' \<mapsto> PStr ''walk dog'', ''id'' \<mapsto> PNum 2],
                      [''text'' \<mapsto> PStr ''feed cat'', ''id'' \<mapsto> PNum 3]]\<rparr>)
       (handleOnClick (JPrim (PNum 3)))
     = (3, \<lparr>todos = [[''text'' \<mapsto> PStr ''buy milk'', ''id'' \<mapsto> PNum 1],
                      [''text'' \<mapsto> PStr ''walk dog'', ''id'' \<mapsto> PNum 2]]\<rparr>)"
proof -
  let ?s = "\<lparr>todos = [[''text'' \<mapsto> PStr ''buy milk'', ''id'' \<mapsto> PNum 1],
                      [''text'' \<mapsto> PStr ''walk dog'', ''id'' \<mapsto> PNum 2]]\<rparr>"
  let ?s1 = "\<lparr>todos = [[''text'' \<mapsto> PStr ''buy milk'', ''id'' \<mapsto> PNum 1],
                       [''text'' \<mapsto> PStr ''walk dog'', ''id'' \<mapsto> PNum 2],
                       [''text'' \<mapsto> PStr ''feed cat'', ''id'' \<mapsto> PNum 3]]\<rparr>"
  have ty: "field (add_action 0 ''feed cat'') ''type'' = JPrim (PStr ''ADD_TODO'')"
    by simp
  have fresh: "PNum (js_incr 2) \<notin> set (ids ?s)"
    by (simp add: ids_def js_incr_def)
  have run: "manageTodo 2 (Some ?s) (add_action 0 ''feed cat'') = (3, ?s1)"
    by (simp add: manageTodo_add js_incr_def)
  have "manageTodo 3 (Some ?s1) (handleOnClick (JPrim (get (last (todos ?s1)) ''id''))) = (3, ?s)"
    by (rule add_then_delete_restores [OF ty fresh run])
  then have restored: "manageTodo 3 (Some ?s1) (handleOnClick (JPrim (PNum 3))) = (3, ?s)"
    by simp
  from fresh run restored show ?thesis by (intro conjI)
qed

section \<open>Delete\<close>

text \<open>
  C1. For every state and every id, a Delete returns a state whose collection holds
  exactly the items of the prior collection whose id is not the given one: an item with
  the given id occurs no more, every other item occurs as often as before. When no item
  has the given id the returned state is the given one. This holds for the reducer with
  the counter (the id is \<open>action.id\<close>, as \<open>Todo.handleOnClick\<close> dispatches it) and for the
  last reducer of the walkthrough (the id is \<open>action.payload\<close>); the counter is left as
  it is.
\<close>

theorem delete_removes_exactly_matching:
  assumes "field a ''type'' = JPrim (PStr ''DELETE_TODO'')"
    and "field b ''type'' = JPrim (PStr ''DELETE_TODO'')"
  shows "(\<exists>s'. manageTodo c (Some s) a = (c, s')
        \<and> (\<forall>t. count_list (todos s') t =
              (if JPrim (get t ''id'') = field a ''id'' then 0 else count_list (todos s) t))
        \<and> ((\<forall>t\<in>set (todos s). JPrim (get t ''id'') \<noteq> field a ''id'') \<longrightarrow> s' = s))
    \<and> (\<exists>w'. manageTodo_final u r (Some w) b = Inr w'
        \<and> (\<forall>t. count_list (todos_uuid w') t =
              (if JPrim (get (snd t) ''id'') = field b ''payload'' then 0
               else count_list (todos_uuid w) t))
        \<and> ((\<forall>t\<in>set (todos_uuid w). JPrim (get (snd t) ''id'') \<noteq> field b ''payload'')
             \<longrightarrow> w' = w))"
proof (rule conjI)
  let ?keep = "\<lambda>todo. JPrim (get todo ''id'') \<noteq> field a ''id''"
  let ?s' = "\<lparr>todos = filter ?keep (todos s)\<rparr>"
  have run: "manageTodo c (Some s) a = (c, ?s')"
    by (rule manageTodo_delete [OF assms(1)])
  have cnt: "\<forall>t. count_list (todos ?s') t =
      (if JPrim (get t ''id'') = field a ''id'' then 0 else count_list (todos s) t)"
    by (simp add: count_list_filter)
  have noop: "(\<forall>t\<in>set (todos s). ?keep t) \<longrightarrow> ?s' = s"
    by (simp add: filter_noop)
  from run cnt noop show "\<exists>s'. manageTodo c (Some s) a = (c, s')
        \<and> (\<forall>t. count_list (todos s') t =
              (if JPrim (get t ''id'') = field a ''id'' then 0 else count_list (todos s) t))
        \<and> ((\<forall>t\<in>set (todos s). JPrim (get t ''id'') \<noteq> field a ''id'') \<longrightarrow> s' = s)"
    by (intro exI [of _ ?s'] conjI)
next
  let ?keep = "\<lambda>todo. JPrim (get (snd todo) ''id'') \<noteq> field b ''payload''"
  let ?w' = "\<lparr>todos_uuid = filter ?keep (todos_uuid w)\<rparr>"
  have run: "manageTodo_final u r (Some w) b = Inr ?w'"
    by (rule manageTodo_final_delete [OF assms(2)])
  have cnt: "\<forall>t. count_list (todos_uuid ?w') t =
      (if JPrim (get (snd t) ''id'') = field b ''payload'' then 0
       else count_list (todos_uuid w) t)"
    by (simp add: count_list_filter)
  have noop: "(\<forall>t\<in>set (todos_uuid w). ?keep t) \<longrightarrow> ?w' = w"
    by (simp add: filter_noop)
  from run cnt noop show "\<exists>w'. manageTodo_final u r (Some w) b = Inr w'
        \<and> (\<forall>t. count_list (todos_uuid w') t =
              (if JPrim (get (snd t) ''id'') = field b ''payload'' then 0
               else count_list (todos_uuid w) t))
        \<and> ((\<forall>t\<in>set (todos_uuid w). JPrim (get (snd t) ''id'') \<noteq> field b ''payload'')
             \<longrightarrow> w' = w)"
    by (intro exI [of _ ?w'] conjI)
qed

theorem delete_removes_exactly_matching_witness:
  "manageTodo 2 (Some \<lparr>todos = [[''text'' \<mapsto> PStr ''walk dog'', ''id'' \<mapsto> PNum 2]]\<rparr>)
      (handleOnClick (JPrim (PNum 99)))
     = (2, \<lparr>todos = [[''text'' \<mapsto> PStr ''walk dog'', ''id'' \<mapsto> PNum 2]]\<rparr>)
   \<and> manageTodo_final ''u'' 0
      (Some \<lparr>todos_uuid = [(1, [''id'' \<mapsto> PStr ''a1'', ''text'' \<mapsto> PStr ''walk dog''])]\<rparr>)
      (dispatch_delete (JPrim (PStr ''zz'')))
     = Inr \<lparr>todos_uuid = [(1, [''id'' \<mapsto> PStr ''a1'', ''text'' \<mapsto> PStr ''walk dog''])]\<rparr>"
  using delete_removes_exactly_matching [of "handleOnClick (JPrim (PNum 99))"
      "dispatch_delete (JPrim (PStr ''zz''))" 2
      "\<lparr>todos = [[''text'' \<mapsto> PStr ''walk dog'', ''id'' \<mapsto> PNum 2]]\<rparr>" "''u''" 0
      "\<lparr>todos_uuid = [(1, [''id'' \<mapsto> PStr ''a1'', ''text'' \<mapsto> PStr ''walk dog''])]\<rparr>"]
  by simp

text \<open>
  C6. Delete is idempotent: deleting an id from the state a Delete of that id has returned
  changes nothing.
\<close>

theorem delete_idempotent:
  assumes "field a ''type'' = JPrim (PStr ''DELETE_TODO'')"
    and "manageTodo c (Some s) a = (c1, s1)"
  shows "manageTodo c1 (Some s1) a = (c1, s1)"
proof -
  from assms have "c1 = c"
    and s1: "s1 = \<lparr>todos = filter (\<lambda>todo. JPrim (get todo ''id'') \<noteq> field a ''id'') (todos s)\<rparr>"
    by (simp_all add: manageTodo_delete)
  then show ?thesis
    by (simp add: manageTodo_delete [OF assms(1)])
qed

theorem delete_idempotent_witness:
  "manageTodo 2 (Some \<lparr>todos = [[''text'' \<mapsto> PStr ''buy milk'', ''id'' \<mapsto> PNum 1],
                                [''text'' \<mapsto> PStr ''walk dog'', ''id'' \<mapsto> PNum 2]]\<rparr>)
      (handleOnClick (JPrim (PNum 1)))
     = (2, \<lparr>todos = [[''text'' \<mapsto> PStr ''walk dog'', ''id'' \<mapsto> PNum 2]]\<rparr>)
   \<and> manageTodo 2 (Some \<lparr>todos = [[''text'' \<mapsto> PStr ''walk dog'', ''id'' \<mapsto> PNum 2]]\<rparr>)
      (handleOnClick (JPrim (PNum 1)))
     = (2, \<lparr>todos = [[''text'' \<mapsto> PStr ''walk dog'', ''id'' \<mapsto> PNum 2]]\<rparr>)"
proof -
  let ?s = "\<lparr>todos = [[''text'' \<mapsto> PStr ''buy milk'', ''id'' \<mapsto> PNum 1],
                      [''text'' \<mapsto> PStr ''walk dog'', ''id'' \<mapsto> PNum 2]]\<rparr>"
  let ?s1 = "\<lparr>todos = [[''text'' \<mapsto> PStr ''walk dog'', ''id'' \<mapsto> PNum 2]]\<rparr>"
  have ty: "field (handleOnClick (JPrim (PNum 1))) ''type'' = JPrim (PStr ''DELETE_TODO'')"
    by simp
  have once: "manageTodo 2 (Some ?s) (handleOnClick (JPrim (PNum 1))) = (2, ?s1)"
    by (simp add: manageTodo_delete)
  from delete_idempotent [OF ty once] once show ?thesis by simp
qed

text \<open>
  C8. The items a Delete leaves appear in the order they had: the returned collection is
  a subsequence of the given one.
\<close>

theorem delete_preserves_order:
  assumes "field a ''type'' = JPrim (PStr ''DELETE_TODO'')"
  shows "subseq (todos (snd (manageTodo c (Some s) a))) (todos s)"
  by (simp add: manageTodo_delete [OF assms])

theorem delete_preserves_order_witness:
  "subseq (todos (snd (manageTodo 3 (Some \<lparr>todos =
      [[''text'' \<mapsto> PStr ''a'', ''id'' \<mapsto> PNum 1], [''text'' \<mapsto> PStr ''b'', ''id'' \<mapsto> PNum 2],
       [''text'' \<mapsto> PStr ''c'', ''id'' \<mapsto> PNum 3]]\<rparr>) (handleOnClick (JPrim (PNum 2))))))
     [[''text'' \<mapsto> PStr ''a'', ''id'' \<mapsto> PNum 1], [''text'' \<mapsto> PStr ''b'', ''id'' \<mapsto> PNum 2],
      [''text'' \<mapsto> PStr ''c'', ''id'' \<mapsto> PNum 3]]
   \<and> todos (snd (manageTodo 3 (Some \<lparr>todos =
      [[''text'' \<mapsto> PStr ''a'', ''id'' \<mapsto> PNum 1], [''text'' \<mapsto> PStr ''b'', ''id'' \<mapsto> PNum 2],
       [''text'' \<mapsto> PStr ''c'', ''id'' \<mapsto> PNum 3]]\<rparr>) (handleOnClick (JPrim (PNum 2)))))
     = [[''text'' \<mapsto> PStr ''a'', ''id'' \<mapsto> PNum 1], [''text'' \<mapsto> PStr ''c'', ''id'' \<mapsto> PNum 3]]"
  using delete_preserves_order [of "handleOnClick (JPrim (PNum 2))" 3 "\<lparr>todos =
      [[''text'' \<mapsto> PStr ''a'', ''id'' \<mapsto> PNum 1], [''text'' \<mapsto> PStr ''b'', ''id'' \<mapsto> PNum 2],
       [''text'' \<mapsto> PStr ''c'', ''id'' \<mapsto> PNum 3]]\<rparr>"]
  by (simp add: manageTodo_delete)

text \<open>
  C9. The reducer of the walkthrough that stores todo objects but still compares the
  whole todo with the payload removes nothing when the payload is an id: for every state
  and every primitive payload, the returned state is the given one. The last reducer
  of the walkthrough differs from it on every state that holds an item with that id.
\<close>

theorem whole_item_delete_removes_nothing:
  "manageTodo_uuid u r (Some w) (dispatch_delete (JPrim p)) = Inr w
   \<and> ((\<exists>t\<in>set (todos_uuid w). get (snd t) ''id'' = p) \<longrightarrow>
        manageTodo_final u r (Some w) (dispatch_delete (JPrim p)) \<noteq> Inr w)"
proof (intro conjI impI)
  show "manageTodo_uuid u r (Some w) (dispatch_delete (JPrim p)) = Inr w"
    by (simp add: manageTodo_uuid_delete)
next
  assume "\<exists>t\<in>set (todos_uuid w). get (snd t) ''id'' = p"
  then obtain t where t: "t \<in> set (todos_uuid w)" "get (snd t) ''id'' = p" ..
  let ?kept = "filter (\<lambda>todo. JPrim (get (snd todo) ''id'') \<noteq> JPrim p) (todos_uuid w)"
  have "t \<notin> set ?kept" using t by simp
  with t(1) have "?kept \<noteq> todos_uuid w" by metis
  then have "\<lparr>todos_uuid = ?kept\<rparr> \<noteq> w" by (metis state_uuid.select_convs(1))
  then show "manageTodo_final u r (Some w) (dispatch_delete (JPrim p)) \<noteq> Inr w"
    by (simp add: manageTodo_final_delete)
qed

theorem whole_item_delete_removes_nothing_witness:
  "manageTodo_uuid ''u'' 9
      (Some \<lparr>todos_uuid = [(1, [''id'' \<mapsto> PStr ''a1'', ''text'' \<mapsto> PStr ''buy milk''])]\<rparr>)
      (dispatch_delete (JPrim (PStr ''a1'')))
     = Inr \<lparr>todos_uuid = [(1, [''id'' \<mapsto> PStr ''a1'', ''text'' \<mapsto> PStr ''buy milk''])]\<rparr>
   \<and> manageTodo_final ''u'' 9
      (Some \<lparr>todos_uuid = [(1, [''id'' \<mapsto> PStr ''a1'', ''text'' \<mapsto> PStr ''buy milk''])]\<rparr>)
      (dispatch_delete (JPrim (PStr ''a1'')))
     \<noteq> Inr \<lparr>todos_uuid = [(1, [''id'' \<mapsto> PStr ''a1'', ''text'' \<mapsto> PStr ''buy milk''])]\<rparr>"
  using whole_item_delete_removes_nothing [of "''u''" 9
      "\<lparr>todos_uuid = [(1, [''id'' \<mapsto> PStr ''a1'', ''text'' \<mapsto> PStr ''buy milk''])]\<rparr>" "PStr ''a1''"]
  by simp

section \<open>Add\<close>

text \<open>
  C5 (as stated). The identifier an Add gives its item is not fresh for every state. With
  the counter at \<open>0\<close> and a collection that holds one item with id \<open>1\<close>, the appended
  item gets the id \<open>1\<close>, which the collection already holds.
\<close>

theorem add_id_already_present:
  "manageTodo 0 (Some \<lparr>todos = [[''id'' \<mapsto> PNum 1, ''text'' \<mapsto> PStr ''a'']]\<rparr>)
       (add_action 0 ''b'')
     = (1, \<lparr>todos = [[''id'' \<mapsto> PNum 1, ''text'' \<mapsto> PStr ''a''],
                      [''text'' \<mapsto> PStr ''b'', ''id'' \<mapsto> PNum 1]]\<rparr>)
   \<and> get [''text'' \<mapsto> PStr ''b'', ''id'' \<mapsto> PNum 1] ''id''
       \<in> set (ids \<lparr>todos = [[''id'' \<mapsto> PNum 1, ''text'' \<mapsto> PStr ''a'']]\<rparr>)
   \<and> distinct (ids \<lparr>todos = [[''id'' \<mapsto> PNum 1, ''text'' \<mapsto> PStr ''a'']]\<rparr>)"
  by (simp add: manageTodo_add js_incr_def ids_def)

text \<open>
  C5 (amended). For every state and every text (the empty one included), an Add whose
  object carries the text returns a state whose collection is the prior collection
  followed by one new item. The item has the given text, and its id is generated during
  the call, whatever the action holds: the value of the counter after its increment, or,
  in the reducers of the walkthrough, the string \<open>uuid()\<close> returned. The id of the counter
  reducer is fresh, that is no id of the collection and no id handed out before, in every
  reachable state whose counter is below \<open>2^53\<close>, and no id of the collection whenever
  the collection does not hold the incremented counter.
\<close>

theorem add_appends_generated_item:
  assumes "field a ''type'' = JPrim (PStr ''ADD_TODO'')"
    and "field a ''todo'' = JObj q ps" and "ps ''text'' = Some (PStr text)"
    and "field b ''type'' = JPrim (PStr ''ADD_TODO'')"
    and "field b ''payload'' = JObj q ps"
  shows "(\<exists>item. manageTodo c (Some s) a = (js_incr c, \<lparr>todos = todos s @ [item]\<rparr>)
        \<and> get item ''text'' = PStr text \<and> get item ''id'' = PNum (js_incr c)
        \<and> (PNum (js_incr c) \<notin> set (ids s) \<longrightarrow> get item ''id'' \<notin> set (ids s))
        \<and> (\<forall>h. reachable c s h \<longrightarrow> c < 2 ^ 53 \<longrightarrow>
              get item ''id'' \<notin> set (ids s) \<and> get item ''id'' \<notin> set h))
    \<and> (\<exists>item. manageTodo_uuid u r (Some w) b = Inr \<lparr>todos_uuid = todos_uuid w @ [(r, item)]\<rparr>
        \<and> manageTodo_final u r (Some w) b = Inr \<lparr>todos_uuid = todos_uuid w @ [(r, item)]\<rparr>
        \<and> get item ''text'' = PStr text \<and> get item ''id'' = PStr u)"
proof (rule conjI)
  let ?item = "ps(''id'' \<mapsto> PNum (js_incr c))"
  have run: "manageTodo c (Some s) a = (js_incr c, \<lparr>todos = todos s @ [?item]\<rparr>)"
    using assms(1,2) by (simp add: manageTodo_add)
  have carried: "get ?item ''text'' = PStr text"
    using assms(3) by (simp add: get_def)
  have ident: "get ?item ''id'' = PNum (js_incr c)"
    by simp
  have given: "PNum (js_incr c) \<notin> set (ids s) \<longrightarrow> get ?item ''id'' \<notin> set (ids s)"
    unfolding ident by simp
  have fresh: "\<forall>h. reachable c s h \<longrightarrow> c < 2 ^ 53 \<longrightarrow>
      get ?item ''id'' \<notin> set (ids s) \<and> get ?item ''id'' \<notin> set h"
    unfolding ident using reachable_fresh by simp
  from run carried ident given fresh
  show "\<exists>item. manageTodo c (Some s) a = (js_incr c, \<lparr>todos = todos s @ [item]\<rparr>)
        \<and> get item ''text'' = PStr text \<and> get item ''id'' = PNum (js_incr c)
        \<and> (PNum (js_incr c) \<notin> set (ids s) \<longrightarrow> get item ''id'' \<notin> set (ids s))
        \<and> (\<forall>h. reachable c s h \<longrightarrow> c < 2 ^ 53 \<longrightarrow>
              get item ''id'' \<notin> set (ids s) \<and> get item ''id'' \<notin> set h)"
    by (intro exI [of _ ?item] conjI)
next
  let ?item = "[''id'' \<mapsto> PStr u, ''text'' \<mapsto> get ps ''text'']"
  have "get ?item ''text'' = PStr text"
    using assms(3) by (simp add: get_def)
  moreover have "get ?item ''id'' = PStr u"
    by simp
  ultimately show "\<exists>item. manageTodo_uuid u r (Some w) b
          = Inr \<lparr>todos_uuid = todos_uuid w @ [(r, item)]\<rparr>
        \<and> manageTodo_final u r (Some w) b = Inr \<lparr>todos_uuid = todos_uuid w @ [(r, item)]\<rparr>
        \<and> get item ''text'' = PStr text \<and> get item ''id'' = PStr u"
    using manageTodo_uuid_add [OF assms(4,5)] by (intro exI [of _ ?item] conjI)
qed

theorem add_appends_generated_item_witness:
  "reachable 1 \<lparr>todos = [[''text'' \<mapsto> PStr ''buy milk'', ''id'' \<mapsto> PNum 1]]\<rparr> [PNum 1]
   \<and> manageTodo 1 (Some \<lparr>todos = [[''text'' \<mapsto> PStr ''buy milk'', ''id'' \<mapsto> PNum 1]]\<rparr>)
      (add_action 0 '''')
     = (2, \<lparr>todos = [[''text'' \<mapsto> PStr ''buy milk'', ''id'' \<mapsto> PNum 1],
                      [''text'' \<mapsto> PStr '''', ''id'' \<mapsto> PNum 2]]\<rparr>)
   \<and> PNum 2 \<notin> set (ids \<lparr>todos = [[''text'' \<mapsto> PStr ''buy milk'', ''id'' \<mapsto> PNum 1]]\<rparr>)
   \<and> PNum 2 \<notin> set [PNum 1]
   \<and> manageTodo_uuid ''b2'' 5
      (Some \<lparr>todos_uuid = [(4, [''id'' \<mapsto> PStr ''a1'', ''text'' \<mapsto> PStr ''buy milk''])]\<rparr>)
      (add_action_payload 0 '''')
     = Inr \<lparr>todos_uuid = [(4, [''id'' \<mapsto> PStr ''a1'', ''text'' \<mapsto> PStr ''buy milk'']),
                          (5, [''id'' \<mapsto> PStr ''b2'', ''text'' \<mapsto> PStr ''''])]\<rparr>"
proof -
  let ?s = "\<lparr>todos = [[''text'' \<mapsto> PStr ''buy milk'', ''id'' \<mapsto> PNum 1]]\<rparr>"
  let ?w = "\<lparr>todos_uuid = [(4, [''id'' \<mapsto> PStr ''a1'', ''text'' \<mapsto> PStr ''buy milk''])]\<rparr>"
  have lt: "(1::int) < 2 ^ 53" by simp
  have two: "js_incr 1 = 2" by (simp add: js_incr_def)
  have h1: "field (add_action 0 '''') ''type'' = JPrim (PStr ''ADD_TODO'')" by simp
  have h2: "field (add_action 0 '''') ''todo'' = JObj 0 [''text'' \<mapsto> PStr '''']" by simp
  have h3: "[''text'' \<mapsto> PStr ''''] ''text'' = Some (PStr '''')" by simp
  have h4: "field (add_action_payload 0 '''') ''type'' = JPrim (PStr ''ADD_TODO'')" by simp
  have h5: "field (add_action_payload 0 '''') ''payload'' = JObj 0 [''text'' \<mapsto> PStr '''']"
    by simp
  note inst = add_appends_generated_item [OF h1 h2 h3 h4 h5, of 1 ?s "''b2''" 5 ?w]
  from inst [THEN conjunct1] obtain item where
    item: "manageTodo 1 (Some ?s) (add_action 0 '''') = (js_incr 1, \<lparr>todos = todos ?s @ [item]\<rparr>)
      \<and> get item ''text'' = PStr '''' \<and> get item ''id'' = PNum (js_incr 1)
      \<and> (PNum (js_incr 1) \<notin> set (ids ?s) \<longrightarrow> get item ''id'' \<notin> set (ids ?s))
      \<and> (\<forall>h. reachable 1 ?s h \<longrightarrow> (1::int) < 2 ^ 53 \<longrightarrow>
            get item ''id'' \<notin> set (ids ?s) \<and> get item ''id'' \<notin> set h)" ..
  from item have ident: "get item ''id'' = PNum 2"
    unfolding two by (elim conjE)
  from item have "reachable 1 ?s [PNum 1] \<longrightarrow> (1::int) < 2 ^ 53 \<longrightarrow>
      get item ''id'' \<notin> set (ids ?s) \<and> get item ''id'' \<notin> set [PNum 1]"
    by (elim conjE allE [of _ "[PNum 1]"])
  with reachable_one lt have "get item ''id'' \<notin> set (ids ?s) \<and> get item ''id'' \<notin> set [PNum 1]"
    by (elim impE) assumption+
  then have f: "PNum 2 \<notin> set (ids ?s) \<and> PNum 2 \<notin> set [PNum 1]"
    unfolding ident .
  have r: "manageTodo 1 (Some ?s) (add_action 0 '''')
     = (2, \<lparr>todos = [[''text'' \<mapsto> PStr ''buy milk'', ''id'' \<mapsto> PNum 1],
                      [''text'' \<mapsto> PStr '''', ''id'' \<mapsto> PNum 2]]\<rparr>)"
    by (simp add: manageTodo_add js_incr_def)
  have u: "manageTodo_uuid ''b2'' 5 (Some ?w) (add_action_payload 0 '''')
     = Inr \<lparr>todos_uuid = [(4, [''id'' \<mapsto> PStr ''a1'', ''text'' \<mapsto> PStr ''buy milk'']),
                          (5, [''id'' \<mapsto> PStr ''b2'', ''text'' \<mapsto> PStr ''''])]\<rparr>"
    by (simp add: manageTodo_uuid_add)
  from reachable_one r f [THEN conjunct1] f [THEN conjunct2] u show ?thesis by (intro conjI)
qed

section \<open>Uniqueness of ids\<close>

text \<open>
  C2 (as stated). Not every reachable state has pairwise distinct ids. Once the counter
  has reached \<open>2^53\<close> the increment leaves it there, and two further Adds give two items
  the id \<open>2^53\<close>.
\<close>

theorem ids_repeat_at_2_53:
  "reachable (2 ^ 53)
     \<lparr>todos = [[''text'' \<mapsto> PStr ''a'', ''id'' \<mapsto> PNum (2 ^ 53)],
               [''text'' \<mapsto> PStr ''b'', ''id'' \<mapsto> PNum (2 ^ 53)]]\<rparr>
     (map PNum [1..2 ^ 53] @ [PNum (2 ^ 53), PNum (2 ^ 53)])
   \<and> \<not> distinct (ids \<lparr>todos = [[''text'' \<mapsto> PStr ''a'', ''id'' \<mapsto> PNum (2 ^ 53)],
                              [''text'' \<mapsto> PStr ''b'', ''id'' \<mapsto> PNum (2 ^ 53)]]\<rparr>)"
proof -
  let ?a = "[''text'' \<mapsto> PStr ''a'', ''id'' \<mapsto> PNum (2 ^ 53)]"
  let ?b = "[''text'' \<mapsto> PStr ''b'', ''id'' \<mapsto> PNum (2 ^ 53)]"
  let ?h = "map PNum [1..2 ^ 53]"
  have r0: "reachable (2 ^ 53) default_state ?h"
    by (rule reachable_empty) simp_all
  have s1: "manageTodo (2 ^ 53) (Some default_state) (add_action 0 ''a'')
      = (2 ^ 53, \<lparr>todos = [?a]\<rparr>)"
    by (simp add: manageTodo_add js_incr_def default_state_def)
  have a1: "appended_ids default_state \<lparr>todos = [?a]\<rparr> = [PNum (2 ^ 53)]"
    by (simp add: appended_ids_def default_state_def)
  have r1: "reachable (2 ^ 53) \<lparr>todos = [?a]\<rparr> (?h @ [PNum (2 ^ 53)])"
    using reachable_step [OF r0 s1] unfolding a1 .
  have s2: "manageTodo (2 ^ 53) (Some \<lparr>todos = [?a]\<rparr>) (add_action 0 ''b'')
      = (2 ^ 53, \<lparr>todos = [?a, ?b]\<rparr>)"
    by (simp add: manageTodo_add js_incr_def)
  have a2: "appended_ids \<lparr>todos = [?a]\<rparr> \<lparr>todos = [?a, ?b]\<rparr> = [PNum (2 ^ 53)]"
    by (simp add: appended_ids_def)
  have r2: "reachable (2 ^ 53) \<lparr>todos = [?a, ?b]\<rparr> ((?h @ [PNum (2 ^ 53)]) @ [PNum (2 ^ 53)])"
    using reachable_step [OF r1 s2] unfolding a2 .
  have "\<not> distinct (ids \<lparr>todos = [?a, ?b]\<rparr>)"
    by (simp add: ids_def)
  with r2 show ?thesis by simp
qed

text \<open>
  C2 (amended). In every reachable state whose counter is below \<open>2^53\<close>, the ids of the
  items are pairwise distinct. A Delete and an unrecognized action keep the ids distinct,
  and so does an Add from a reachable state whose counter is below \<open>2^53\<close>.
\<close>

theorem reachable_ids_distinct:
  assumes "reachable c s h"
  shows "(c < 2 ^ 53 \<longrightarrow> distinct (ids s))
    \<and> (\<forall>a c' s'. manageTodo c (Some s) a = (c', s') \<longrightarrow>
          (field a ''type'' \<noteq> JPrim (PStr ''ADD_TODO'') \<longrightarrow> distinct (ids s) \<longrightarrow> distinct (ids s'))
          \<and> (c < 2 ^ 53 \<longrightarrow> distinct (ids s')))"
proof (intro conjI allI impI)
  assume "c < 2 ^ 53"
  with reachable_distinct [OF assms] show "distinct (ids s)" by simp
next
  fix a c' s'
  assume "manageTodo c (Some s) a = (c', s')"
    and "field a ''type'' \<noteq> JPrim (PStr ''ADD_TODO'')" and "distinct (ids s)"
  then show "distinct (ids s')" by (auto intro: step_distinct)
next
  fix a c' s'
  assume run: "manageTodo c (Some s) a = (c', s')" and lt: "c < 2 ^ 53"
  from reachable_distinct [OF assms] lt have "distinct (ids s)" by simp
  moreover from reachable_fresh [OF assms lt] have "PNum (js_incr c) \<notin> set (ids s)" by simp
  ultimately show "distinct (ids s')" using run by (auto intro: step_distinct)
qed

theorem reachable_ids_distinct_witness:
  "reachable 1 \<lparr>todos = [[''text'' \<mapsto> PStr ''buy milk'', ''id'' \<mapsto> PNum 1]]\<rparr> [PNum 1]
   \<and> distinct (ids \<lparr>todos = [[''text'' \<mapsto> PStr ''buy milk'', ''id'' \<mapsto> PNum 1]]\<rparr>)
   \<and> distinct (ids (snd (manageTodo 1
        (Some \<lparr>todos = [[''text'' \<mapsto> PStr ''buy milk'', ''id'' \<mapsto> PNum 1]]\<rparr>)
        (add_action 0 ''walk dog''))))"
proof -
  let ?s = "\<lparr>todos = [[''text'' \<mapsto> PStr ''buy milk'', ''id'' \<mapsto> PNum 1]]\<rparr>"
  note inst = reachable_ids_distinct [OF reachable_one]
  have lt: "(1::int) < 2 ^ 53" by simp
  from inst lt have d: "distinct (ids ?s)" by blast
  obtain c' s' where run: "manageTodo 1 (Some ?s) (add_action 0 ''walk dog'') = (c', s')"
    by (cases "manageTodo 1 (Some ?s) (add_action 0 ''walk dog'')")
  with inst lt have "distinct (ids s')" by blast
  with run d reachable_one show ?thesis by simp
qed

section \<open>The counter\<close>

text \<open>
  C10 (as stated). The counter does not strictly increase on every Add. The state with
  the counter at \<open>2^53\<close> is reachable; an Add there leaves the counter at \<open>2^53\<close> and gives
  the new item the id \<open>2^53\<close>, which was handed out before.
\<close>

theorem counter_stuck_at_2_53:
  "reachable (2 ^ 53) default_state (map PNum [1..2 ^ 53])
   \<and> manageTodo (2 ^ 53) (Some default_state) (add_action 0 ''a'')
      = (2 ^ 53, \<lparr>todos = [[''text'' \<mapsto> PStr ''a'', ''id'' \<mapsto> PNum (2 ^ 53)]]\<rparr>)
   \<and> PNum (2 ^ 53) \<in> set (map PNum [1..2 ^ 53])"
proof (intro conjI)
  show "reachable (2 ^ 53) default_state (map PNum [1..2 ^ 53])"
    by (rule reachable_empty) simp_all
  show "manageTodo (2 ^ 53) (Some default_state) (add_action 0 ''a'')
      = (2 ^ 53, \<lparr>todos = [[''text'' \<mapsto> PStr ''a'', ''id'' \<mapsto> PNum (2 ^ 53)]]\<rparr>)"
    by (simp add: manageTodo_add js_incr_def default_state_def)
  show "PNum (2 ^ 53) \<in> set (map PNum [1..2 ^ 53])"
    by simp
qed

text \<open>
  C10 (amended). In every reachable state, every id of the collection, and every id handed
  out so far, is a number between \<open>1\<close> and the counter. A Delete and an unrecognized action
  leave the counter as it is. An Add sets it to its incremented value, which is the counter
  plus one as long as the counter is below \<open>2^53\<close>; the new item's id is the new counter
  value whatever the action's \<open>todo\<close> holds, an \<open>id\<close> included; and as long as the counter is
  below \<open>2^53\<close> that id differs from every id handed out before, those of deleted items
  included, and from every id of the collection.
\<close>

theorem counter_invariant:
  assumes "reachable c s h"
  shows "bounded c (ids s) \<and> bounded c h
    \<and> (\<forall>a c' s'. manageTodo c (Some s) a = (c', s') \<longrightarrow>
          (field a ''type'' \<noteq> JPrim (PStr ''ADD_TODO'') \<longrightarrow> c' = c)
          \<and> (field a ''type'' = JPrim (PStr ''ADD_TODO'') \<longrightarrow>
                c' = js_incr c \<and> (c < 2 ^ 53 \<longrightarrow> c' = c + 1)
                \<and> (\<exists>item. todos s' = todos s @ [item] \<and> get item ''id'' = PNum c')
                \<and> (c < 2 ^ 53 \<longrightarrow> PNum c' \<notin> set h \<and> PNum c' \<notin> set (ids s))))"
proof (intro conjI allI impI)
  show "bounded c (ids s)" and "bounded c h"
    using reachable_bounded [OF assms] by simp_all
next
  fix a c' s'
  assume "manageTodo c (Some s) a = (c', s')"
    and "field a ''type'' \<noteq> JPrim (PStr ''ADD_TODO'')"
  then show "c' = c"
    using manageTodo_not_add [of a c "Some s" c] by simp
next
  fix a c' s'
  assume run: "manageTodo c (Some s) a = (c', s')"
    and ad: "field a ''type'' = JPrim (PStr ''ADD_TODO'')"
  from run show c': "c' = js_incr c"
    by (simp add: manageTodo_add [OF ad])
  from run show "\<exists>item. todos s' = todos s @ [item] \<and> get item ''id'' = PNum c'"
    by (auto simp add: manageTodo_add [OF ad])
  {
    assume lt: "c < 2 ^ 53"
    then show "c' = c + 1" using c' by (simp add: js_incr_def)
    from reachable_fresh [OF assms lt] c'
    show "PNum c' \<notin> set h" and "PNum c' \<notin> set (ids s)" by simp_all
  }
qed

theorem counter_invariant_witness:
  "reachable 1 \<lparr>todos = [[''text'' \<mapsto> PStr ''buy milk'', ''id'' \<mapsto> PNum 1]]\<rparr> [PNum 1]
   \<and> bounded 1 [PNum 1]
   \<and> fst (manageTodo 1 (Some \<lparr>todos = [[''text'' \<mapsto> PStr ''buy milk'', ''id'' \<mapsto> PNum 1]]\<rparr>)
        [''type'' \<mapsto> JPrim (PStr ''ADD_TODO''),
         ''todo'' \<mapsto> JObj 0 [''text'' \<mapsto> PStr ''walk dog'', ''id'' \<mapsto> PNum 1]]) = 2
   \<and> fst (manageTodo 1 (Some \<lparr>todos = [[''text'' \<mapsto> PStr ''buy milk'', ''id'' \<mapsto> PNum 1]]\<rparr>)
        (handleOnClick (JPrim (PNum 1)))) = 1"
proof -
  let ?s = "\<lparr>todos = [[''text'' \<mapsto> PStr ''buy milk'', ''id'' \<mapsto> PNum 1]]\<rparr>"
  let ?add = "[''type'' \<mapsto> JPrim (PStr ''ADD_TODO''),
         ''todo'' \<mapsto> JObj 0 [''text'' \<mapsto> PStr ''walk dog'', ''id'' \<mapsto> PNum 1]]"
  note inst = counter_invariant [OF reachable_one]
  from inst have b: "bounded 1 [PNum 1]" by simp
  have lt: "(1::int) < 2 ^ 53" by simp
  have ad: "field ?add ''type'' = JPrim (PStr ''ADD_TODO'')" by simp
  obtain c' s' where run: "manageTodo 1 (Some ?s) ?add = (c', s')"
    by (cases "manageTodo 1 (Some ?s) ?add")
  with inst ad lt have "c' = 1 + 1" by blast
  with run have a: "fst (manageTodo 1 (Some ?s) ?add) = 2" by simp
  have nd: "field (handleOnClick (JPrim (PNum 1))) ''type'' \<noteq> JPrim (PStr ''ADD_TODO'')" by simp
  obtain c'' s'' where run2: "manageTodo 1 (Some ?s) (handleOnClick (JPrim (PNum 1))) = (c'', s'')"
    by (cases "manageTodo 1 (Some ?s) (handleOnClick (JPrim (PNum 1)))")
  with inst nd have "c'' = 1" by blast
  with run2 have d: "fst (manageTodo 1 (Some ?s) (handleOnClick (JPrim (PNum 1)))) = 1" by simp
  from reachable_one b a d show ?thesis by (intro conjI)
qed

end
